theory Spec2Isabelle
  imports Complex_Main "HOL-Library.Multiset"
begin

section \<open>Numbers, candles and faults\<close>

text \<open>
  The program is TypeScript. Its \<open>number\<close> values that hold prices and capital are read
  as exact reals: rounding, infinities and NaN of the double format are not represented.
  A division by zero raises nothing in the program (it yields an infinity or NaN), so the
  model has no fault for it; statements whose truth depends on a quotient name the
  nonzero denominator as a hypothesis. Indices, bar counts and counters are naturals.

  The only fault the simulator can raise is the \<open>TypeError\<close> of reading a property of
  \<open>undefined\<close>, which is what an array read beyond the end of the series returns.
\<close>

datatype error = TypeError

record PriceData =
  timestamp :: int
  open' :: real
  high :: real
  low :: real
  close :: real

text \<open>\<open>data[j]\<close>: the candle at index \<open>j\<close>, or \<open>undefined\<close> (here \<open>None\<close>) out of range.\<close>

definition at_index :: "PriceData list \<Rightarrow> nat \<Rightarrow> PriceData option" where
  "at_index data j = (if j < length data then Some (data ! j) else None)"

section \<open>Price-level formulas (utils.ts)\<close>

definition calculateRemainingAmount :: "real \<Rightarrow> real \<Rightarrow> real" where
  "calculateRemainingAmount profitOrLoss buyAmount = profitOrLoss + buyAmount"

text \<open>
  \<open>btcBought * (profitTaken ? profitLimitPrice : exitCandle.close)\<close>: the exit candle is
  read only when the profit target was not hit, and reading it when it is \<open>undefined\<close>
  is a \<open>TypeError\<close>.
\<close>

definition calculateExitSoldInUSD ::
  "real \<Rightarrow> bool \<Rightarrow> real \<Rightarrow> PriceData option \<Rightarrow> error + real" where
  "calculateExitSoldInUSD btcBought profitTaken profitLimitPrice exitCandle =
     (if profitTaken then Inr (btcBought * profitLimitPrice)
      else (case exitCandle of
              None \<Rightarrow> Inl TypeError
            | Some c \<Rightarrow> Inr (btcBought * close c)))"

definition calculateProfitOrLoss :: "real \<Rightarrow> real \<Rightarrow> real \<Rightarrow> bool \<Rightarrow> real" where
  "calculateProfitOrLoss exitSoldAmountInUSD btcBought entryPrice long =
     (if long then exitSoldAmountInUSD - btcBought * entryPrice
      else btcBought * entryPrice - exitSoldAmountInUSD)"

definition calculateLiquidationPrice :: "real \<Rightarrow> real \<Rightarrow> bool \<Rightarrow> real" where
  "calculateLiquidationPrice entryPrice leverage long =
     (let distance = 100 / leverage;
          distanceInDollars = (distance / 100) * entryPrice
      in if long then entryPrice - distanceInDollars
         else entryPrice + distanceInDollars)"

definition calculateProfitLimit :: "real \<Rightarrow> real \<Rightarrow> real \<Rightarrow> bool \<Rightarrow> real" where
  "calculateProfitLimit entryPrice profitInPercent leverage long =
     (if long then entryPrice + (entryPrice * profitInPercent) / 100 / leverage
      else entryPrice - (entryPrice * profitInPercent) / 100 / leverage)"

definition isLiquidated :: "PriceData option \<Rightarrow> real \<Rightarrow> bool \<Rightarrow> error + bool" where
  "isLiquidated candle liquidationPrice long =
     (case candle of
        None \<Rightarrow> Inl TypeError
      | Some c \<Rightarrow> Inr (if long then low c \<le> liquidationPrice
                        else high c \<ge> liquidationPrice))"

definition isProfitTaken :: "PriceData option \<Rightarrow> real \<Rightarrow> bool \<Rightarrow> error + bool" where
  "isProfitTaken candle profitLimitPrice long =
     (case candle of
        None \<Rightarrow> Inl TypeError
      | Some c \<Rightarrow> Inr (if long then high c \<ge> profitLimitPrice
                        else low c \<le> profitLimitPrice))"

section \<open>The position simulator (index.ts, dcaWithLeverage)\<close>

record result =
  wallet :: real
  liquidationsCount :: nat
  takeProfitsCount :: nat
  closedPositionsCount :: nat

text \<open>
  The monitoring loop \<open>for (let j = i + 1; j <= exitIndex; j++)\<close>. It returns the flags
  \<open>liquidated\<close> and \<open>profitTaken\<close> together with the counters, which it increments
  where it breaks.
\<close>

function monitor ::
  "PriceData list \<Rightarrow> real \<Rightarrow> real \<Rightarrow> bool \<Rightarrow> nat \<Rightarrow> nat \<Rightarrow> result
     \<Rightarrow> error + (bool \<times> bool \<times> result)" where
  "monitor data liquidationPrice profitLimitPrice long exitIndex j st =
     (if j \<le> exitIndex then
        (case isLiquidated (at_index data j) liquidationPrice long of
           Inl e \<Rightarrow> Inl e
         | Inr l \<Rightarrow>
             if l then Inr (True, False, st\<lparr>liquidationsCount := liquidationsCount st + 1\<rparr>)
             else (case isProfitTaken (at_index data j) profitLimitPrice long of
                     Inl e \<Rightarrow> Inl e
                   | Inr p \<Rightarrow>
                       if p then Inr (False, True, st\<lparr>takeProfitsCount := takeProfitsCount st + 1\<rparr>)
                       else monitor data liquidationPrice profitLimitPrice long exitIndex (j + 1) st))
      else Inr (False, False, st))"
  by pat_completeness auto
termination
  by (relation "measure (\<lambda>(data, lp, pl, long, exitIndex, j, st). Suc exitIndex - j)") auto

text \<open>The body of the entry loop, for the entry event at index \<open>i\<close>.\<close>

definition trade ::
  "PriceData list \<Rightarrow> real \<Rightarrow> nat \<Rightarrow> real \<Rightarrow> real \<Rightarrow> bool \<Rightarrow> nat \<Rightarrow> result
     \<Rightarrow> error + result" where
  "trade data buyAmount tradeDurationInHours leverage profitInPercent long i st =
     (case at_index data i of
        None \<Rightarrow> Inl TypeError
      | Some c \<Rightarrow>
          let entryPrice = open' c;
              btcBought = (buyAmount * leverage) / entryPrice;
              liquidationPrice = calculateLiquidationPrice entryPrice leverage long;
              profitLimitPrice = calculateProfitLimit entryPrice profitInPercent leverage long;
              exitIndex = i + tradeDurationInHours
          in (case monitor data liquidationPrice profitLimitPrice long exitIndex (i + 1) st of
               Inl e \<Rightarrow> Inl e
             | Inr (liquidated, profitTaken, st1) \<Rightarrow>
                 let st2 = (if \<not> liquidated \<and> \<not> profitTaken
                            then st1\<lparr>closedPositionsCount := closedPositionsCount st1 + 1\<rparr>
                            else st1)
                 in if \<not> liquidated then
                      (case calculateExitSoldInUSD btcBought profitTaken profitLimitPrice
                              (at_index data exitIndex) of
                         Inl e \<Rightarrow> Inl e
                       | Inr exitSoldAmountInUSD \<Rightarrow>
                           let profitOrLoss =
                                 calculateProfitOrLoss exitSoldAmountInUSD btcBought entryPrice long;
                               remaningAmount = calculateRemainingAmount profitOrLoss buyAmount
                           in (case at_index data exitIndex of
                                 None \<Rightarrow> Inl TypeError
                               | Some exitCandle \<Rightarrow>
                                   Inr (st2\<lparr>wallet := wallet st2 + remaningAmount / close exitCandle\<rparr>)))
                    else Inr st2))"

text \<open>
  The entry loop \<open>for (let i = 0; i + buyFrequencyInHours < data.length; i += buyFrequencyInHours)\<close>.
  With a cadence of zero bars it does not advance, so the loop is a partial function:
  \<open>None\<close> is a run that never returns, \<open>Some (Inl e)\<close> a run aborted by the fault \<open>e\<close>.
\<close>

partial_function (option) dcaWithLeverage_from ::
  "PriceData list \<Rightarrow> nat \<Rightarrow> real \<Rightarrow> nat \<Rightarrow> real \<Rightarrow> real \<Rightarrow> bool \<Rightarrow> nat \<Rightarrow> result
     \<Rightarrow> (error + result) option" where
  "dcaWithLeverage_from data buyFrequencyInHours buyAmount tradeDurationInHours leverage
       profitInPercent long i st =
     (if i + buyFrequencyInHours < length data then
        (case trade data buyAmount tradeDurationInHours leverage profitInPercent long i st of
           Inl e \<Rightarrow> Some (Inl e)
         | Inr st' \<Rightarrow>
             dcaWithLeverage_from data buyFrequencyInHours buyAmount tradeDurationInHours leverage
               profitInPercent long (i + buyFrequencyInHours) st')
      else Some (Inr st))"

definition dcaWithLeverage ::
  "PriceData list \<Rightarrow> nat \<Rightarrow> real \<Rightarrow> nat \<Rightarrow> real \<Rightarrow> real \<Rightarrow> bool \<Rightarrow> (error + result) option" where
  "dcaWithLeverage data buyFrequencyInHours buyAmount tradeDurationInHours leverage
       profitInPercent long =
     dcaWithLeverage_from data buyFrequencyInHours buyAmount tradeDurationInHours leverage
       profitInPercent long 0
       \<lparr>wallet = 0, liquidationsCount = 0, takeProfitsCount = 0, closedPositionsCount = 0\<rparr>"

text \<open>
  The entry events as the specification words them: the indices that are multiples of
  the cadence and leave a full next period inside a series of \<open>n\<close> candles.
\<close>

definition entryEvents :: "nat \<Rightarrow> nat \<Rightarrow> nat list" where
  "entryEvents n buyFrequencyInHours =
     filter (\<lambda>i. buyFrequencyInHours dvd i \<and> i + buyFrequencyInHours < n) [0..<n]"

section \<open>The baseline accumulator (index.ts, dca)\<close>

partial_function (option) dca_from ::
  "PriceData list \<Rightarrow> nat \<Rightarrow> real \<Rightarrow> nat \<Rightarrow> real \<Rightarrow> real option" where
  "dca_from data buyFrequencyInHours buyAmount i w =
     (if i < length data then
        dca_from data buyFrequencyInHours buyAmount (i + buyFrequencyInHours)
          (w + buyAmount / close (data ! i))
      else Some w)"

definition dca :: "PriceData list \<Rightarrow> nat \<Rightarrow> real \<Rightarrow> real option" where
  "dca data buyFrequencyInHours buyAmount = dca_from data buyFrequencyInHours buyAmount 0 0"

section \<open>The grid sweep (index.ts, simulateEveryLeverages)\<close>

text \<open>
  \<open>x.toFixed(digits)\<close> renders \<open>x\<close> with the given number of decimals, rounding to the
  nearest and a tie away from zero (for magnitudes below \<open>10^21\<close>, where it switches to
  exponent notation). The row keeps the rendered string and the sort's comparator converts
  it back to a number: the model keeps that number.
\<close>

definition toFixed :: "real \<Rightarrow> nat \<Rightarrow> real" where
  "toFixed x digits =
     (if x < 0 then - (of_int \<lfloor>(- x) * 10 ^ digits + 1 / 2\<rfloor> / 10 ^ digits)
      else of_int \<lfloor>x * 10 ^ digits + 1 / 2\<rfloor> / 10 ^ digits)"

definition diffenceInPercentage :: "real \<Rightarrow> real \<Rightarrow> real" where
  "diffenceInPercentage w dcaClassicWallet = (w / dcaClassicWallet) * 100 - 100"

record row =
  Leverage :: nat
  Auto_take_profit :: nat
  BTC_accumulated :: real
  BTC_accumulated_vs_classic_DCA :: real
  Closed_positions :: nat
  Liquidations :: nat
  Take_profits :: nat

definition make_row :: "real \<Rightarrow> nat \<Rightarrow> nat \<Rightarrow> result \<Rightarrow> row" where
  "make_row dcaClassicWallet i j r =
     \<lparr>Leverage = i,
      Auto_take_profit = j,
      BTC_accumulated = toFixed (wallet r) 4,
      BTC_accumulated_vs_classic_DCA =
        toFixed (diffenceInPercentage (wallet r) dcaClassicWallet) 2,
      Closed_positions = closedPositionsCount r,
      Liquidations = liquidationsCount r,
      Take_profits = takeProfitsCount r\<rparr>"

text \<open>
  The grid is fixed in the code: \<open>for (let i = 5; i <= 100; i++)\<close> over the leverage and
  \<open>for (let j = 50; j <= 1000; j += 50)\<close> over the profit target, the leverage in the outer
  loop. Every cell runs the simulator for a long position and appends its row; a fault in
  a cell leaves the loops at once, since nothing catches it.
\<close>

definition grid :: "(nat \<times> nat) list" where
  "grid = concat (map (\<lambda>i. map (\<lambda>k. (i, 50 * k)) [1..<21]) [5..<101])"

fun sweep ::
  "PriceData list \<Rightarrow> real \<Rightarrow> nat \<Rightarrow> real \<Rightarrow> nat \<Rightarrow> (nat \<times> nat) list \<Rightarrow> row list
     \<Rightarrow> (error + row list) option" where
  "sweep filteredData dcaClassicWallet buyFrequencyInHours dcaAmount longDurationInHours
     [] leverageResults = Some (Inr leverageResults)"
| "sweep filteredData dcaClassicWallet buyFrequencyInHours dcaAmount longDurationInHours
     ((i, j) # cells) leverageResults =
     (case dcaWithLeverage filteredData buyFrequencyInHours dcaAmount longDurationInHours
             (real i) (real j) True of
        None \<Rightarrow> None
      | Some (Inl e) \<Rightarrow> Some (Inl e)
      | Some (Inr r) \<Rightarrow>
          sweep filteredData dcaClassicWallet buyFrequencyInHours dcaAmount longDurationInHours
            cells (leverageResults @ [make_row dcaClassicWallet i j r]))"

text \<open>
  \<open>leverageResults.sort((a, b) => b[key] - a[key])\<close>: a stable sort that puts the larger
  key first. The sorted rows go to \<open>console.table\<close>; they are the result here.
\<close>

definition simulateEveryLeverages ::
  "PriceData list \<Rightarrow> real \<Rightarrow> nat \<Rightarrow> real \<Rightarrow> nat \<Rightarrow> (error + row list) option" where
  "simulateEveryLeverages filteredData dcaClassicWallet buyFrequencyInHours dcaAmount
     longDurationInHours =
     (case sweep filteredData dcaClassicWallet buyFrequencyInHours dcaAmount
             longDurationInHours grid [] of
        None \<Rightarrow> None
      | Some (Inl e) \<Rightarrow> Some (Inl e)
      | Some (Inr leverageResults) \<Rightarrow>
          Some (Inr (sort_key (\<lambda>a. - BTC_accumulated_vs_classic_DCA a) leverageResults)))"

section \<open>Example series\<close>

definition candle :: "int \<Rightarrow> real \<Rightarrow> real \<Rightarrow> real \<Rightarrow> real \<Rightarrow> PriceData" where
  "candle t o' h l c = \<lparr>timestamp = t, open' = o', high = h, low = l, close = c\<rparr>"

definition no_result :: result where
  "no_result = \<lparr>wallet = 0, liquidationsCount = 0, takeProfitsCount = 0,
                 closedPositionsCount = 0\<rparr>"

text \<open>Four bars with opens 100, 110, 90, 120 and closes 105, 100, 95, 130.\<close>

definition four_bars :: "PriceData list" where
  "four_bars = [candle 0 100 106 99 105, candle 1 110 110 100 100,
                candle 2 90 96 90 95, candle 3 120 131 119 130]"


definition three_bars_crash :: "PriceData list" where
  "three_bars_crash = [candle 0 100 100 100 100, candle 1 100 100 50 60,
                       candle 2 60 60 10 20]"

text \<open>A quiet bar, then a bar whose range holds both the liquidation price 90 and the
  profit limit 110 of an entry at 100.\<close>

definition wide_bar :: "PriceData list" where
  "wide_bar = [candle 0 100 100 100 100, candle 1 100 105 95 100, candle 2 100 120 80 100]"

text \<open>Two bars: the second dips to 90, below the liquidation price of an entry at 100
  for a leverage of 100 and above it for a leverage of 5.\<close>

definition two_bars_dip :: "PriceData list" where
  "two_bars_dip = [candle 0 100 100 100 100, candle 1 100 100 90 95]"

text \<open>Two bars at ten million: the second closes one unit higher.\<close>

definition two_bars_tick :: "PriceData list" where
  "two_bars_tick = [candle 0 10000000 10000000 10000000 10000000,
                    candle 1 10000000 10000001 10000000 10000001]"

declare monitor.simps [simp del]

declare dcaWithLeverage_from.simps [code]

declare dca_from.simps [code]

section \<open>Price-level results\<close>

text \<open>
  C5. For entry price 10000 and leverage 25 the liquidation price is 9600 for a long
  position and 10400 for a short one; in general it is
  \<open>entryPrice * (1 - (100 / leverage) / 100)\<close> for a long position and
  \<open>entryPrice * (1 + (100 / leverage) / 100)\<close> for a short one.
\<close>

theorem calculateLiquidationPrice_value:
  "calculateLiquidationPrice 10000 25 True = 9600
   \<and> calculateLiquidationPrice 10000 25 False = 10400
   \<and> calculateLiquidationPrice entryPrice leverage True
       = entryPrice * (1 - (100 / leverage) / 100)
   \<and> calculateLiquidationPrice entryPrice leverage False
       = entryPrice * (1 + (100 / leverage) / 100)"
  by (simp add: calculateLiquidationPrice_def Let_def algebra_simps)

text \<open>
  C6. For entry price 10000, profit target 200 percent and leverage 20 the profit-limit
  price is 11000 for a long position and 9000 for a short one; in general it is
  \<open>entryPrice + entryPrice * profitInPercent / 100 / leverage\<close> for a long position and
  the same with a minus sign for a short one.
\<close>

theorem calculateProfitLimit_value:
  "calculateProfitLimit 10000 200 20 True = 11000
   \<and> calculateProfitLimit 10000 200 20 False = 9000
   \<and> calculateProfitLimit entryPrice profitInPercent leverage True
       = entryPrice + entryPrice * profitInPercent / 100 / leverage
   \<and> calculateProfitLimit entryPrice profitInPercent leverage False
       = entryPrice - entryPrice * profitInPercent / 100 / leverage"
  by (simp add: calculateProfitLimit_def)

text \<open>
  C10. The profit-or-loss of a short position is the exact negation of that of a long
  position with the same exit-sale value, unit count and entry price.
\<close>

theorem calculateProfitOrLoss_short_neg:
  "calculateProfitOrLoss x b e False = - calculateProfitOrLoss x b e True"
  by (simp add: calculateProfitOrLoss_def)

section \<open>The monitoring loop\<close>

lemma at_index_in [simp]: "j < length data \<Longrightarrow> at_index data j = Some (data ! j)"
  by (simp add: at_index_def)

lemma at_index_out [simp]: "length data \<le> j \<Longrightarrow> at_index data j = None"
  by (simp add: at_index_def)

lemma monitor_flags:
  "monitor data lp pl long exitIndex j st = Inr (l, p, st') \<Longrightarrow>
     \<not> (l \<and> p) \<and>
     st' = (if l then st\<lparr>liquidationsCount := liquidationsCount st + 1\<rparr>
            else if p then st\<lparr>takeProfitsCount := takeProfitsCount st + 1\<rparr>
            else st)"
proof (induction data lp pl long exitIndex j st rule: monitor.induct)
  case (1 data lp pl long exitIndex j st)
  show ?case
  proof (cases "j \<le> exitIndex")
    case False
    with "1.prems" show ?thesis by (simp add: monitor.simps)
  next
    case True
    with "1.prems" "1.IH" show ?thesis
      by (subst (asm) monitor.simps) (auto split: sum.splits if_splits)
  qed
qed

lemma isLiquidated_in:
  "isLiquidated (Some c) lp long = Inr (if long then low c \<le> lp else lp \<le> high c)"
  by (simp add: isLiquidated_def)

lemma isProfitTaken_in:
  "isProfitTaken (Some c) pl long = Inr (if long then pl \<le> high c else low c \<le> pl)"
  by (simp add: isProfitTaken_def)

lemma monitor_hit_now:
  assumes "j \<le> exitIndex" "j < length data"
    and "(if long then low (data ! j) \<le> lp else lp \<le> high (data ! j))
         \<or> (if long then pl \<le> high (data ! j) else low (data ! j) \<le> pl)"
  shows "monitor data lp pl long exitIndex j st =
     (if (if long then low (data ! j) \<le> lp else lp \<le> high (data ! j))
      then Inr (True, False, st\<lparr>liquidationsCount := liquidationsCount st + 1\<rparr>)
      else Inr (False, True, st\<lparr>takeProfitsCount := takeProfitsCount st + 1\<rparr>))"
  using assms
  by (subst monitor.simps) (cases long; auto simp: isLiquidated_in isProfitTaken_in)

lemma monitor_skip:
  assumes "j \<le> exitIndex" "j < length data"
    and "\<not> (if long then low (data ! j) \<le> lp else lp \<le> high (data ! j))"
    and "\<not> (if long then pl \<le> high (data ! j) else low (data ! j) \<le> pl)"
  shows "monitor data lp pl long exitIndex j st = monitor data lp pl long exitIndex (j + 1) st"
  using assms
  by (subst monitor.simps) (simp add: isLiquidated_in isProfitTaken_in)

lemma monitor_first_hit_aux:
  assumes "m \<le> exitIndex" "m < length data"
    and "(if long then low (data ! m) \<le> lp else lp \<le> high (data ! m))
         \<or> (if long then pl \<le> high (data ! m) else low (data ! m) \<le> pl)"
  shows "j \<le> m \<Longrightarrow>
     (\<forall>k. j \<le> k \<and> k < m \<longrightarrow>
        \<not> (if long then low (data ! k) \<le> lp else lp \<le> high (data ! k))
      \<and> \<not> (if long then pl \<le> high (data ! k) else low (data ! k) \<le> pl)) \<Longrightarrow>
     monitor data lp pl long exitIndex j st =
     (if (if long then low (data ! m) \<le> lp else lp \<le> high (data ! m))
      then Inr (True, False, st\<lparr>liquidationsCount := liquidationsCount st + 1\<rparr>)
      else Inr (False, True, st\<lparr>takeProfitsCount := takeProfitsCount st + 1\<rparr>))"
proof (induction "m - j" arbitrary: j)
  case 0
  then have "j = m" by simp
  with assms show ?case using monitor_hit_now[of m exitIndex data long lp pl st] by simp
next
  case (Suc d)
  then have lt: "j < m" and d: "d = m - (j + 1)" and le: "j + 1 \<le> m" by simp_all
  from lt Suc.prems(2) have
    q: "\<not> (if long then low (data ! j) \<le> lp else lp \<le> high (data ! j))"
       "\<not> (if long then pl \<le> high (data ! j) else low (data ! j) \<le> pl)"
    by auto
  from lt assms have "j \<le> exitIndex" "j < length data" by simp_all
  then have "monitor data lp pl long exitIndex j st = monitor data lp pl long exitIndex (j + 1) st"
    using q by (rule monitor_skip)
  moreover have "\<forall>k. j + 1 \<le> k \<and> k < m \<longrightarrow>
        \<not> (if long then low (data ! k) \<le> lp else lp \<le> high (data ! k))
      \<and> \<not> (if long then pl \<le> high (data ! k) else low (data ! k) \<le> pl)"
    using Suc.prems(2) by simp
  ultimately show ?case using Suc.hyps(1)[OF d le] by simp
qed

lemma monitor_expires:
  assumes "exitIndex < length data"
  shows "(\<forall>k. j \<le> k \<and> k \<le> exitIndex \<longrightarrow>
        \<not> (if long then low (data ! k) \<le> lp else lp \<le> high (data ! k))
      \<and> \<not> (if long then pl \<le> high (data ! k) else low (data ! k) \<le> pl)) \<Longrightarrow>
     monitor data lp pl long exitIndex j st = Inr (False, False, st)"
proof (induction "Suc exitIndex - j" arbitrary: j)
  case 0
  then have "\<not> j \<le> exitIndex" by simp
  then show ?case by (subst monitor.simps) simp
next
  case (Suc d)
  then have le: "j \<le> exitIndex" and d: "d = Suc exitIndex - (j + 1)" by simp_all
  with assms have "j < length data" by simp
  with le Suc.prems have
    "monitor data lp pl long exitIndex j st = monitor data lp pl long exitIndex (j + 1) st"
    by (intro monitor_skip) auto
  moreover have "monitor data lp pl long exitIndex (j + 1) st = Inr (False, False, st)"
    using Suc.prems by (intro Suc.hyps(1)[OF d]) simp
  ultimately show ?case by simp
qed

lemma monitor_total:
  "exitIndex < length data \<Longrightarrow> \<exists>r. monitor data lp pl long exitIndex j st = Inr r"
proof (induction data lp pl long exitIndex j st rule: monitor.induct)
  case (1 data lp pl long exitIndex j st)
  show ?case
  proof (cases "j \<le> exitIndex")
    case False
    then show ?thesis by (subst monitor.simps) auto
  next
    case True
    with "1.prems" have "j < length data" by simp
    with True "1.IH" "1.prems" show ?thesis
      by (subst monitor.simps) (auto simp: isLiquidated_in isProfitTaken_in)
  qed
qed


section \<open>One entry event\<close>

lemma trade_monitor_Inl:
  assumes "i < length data"
    and "monitor data (calculateLiquidationPrice (open' (data ! i)) leverage long)
           (calculateProfitLimit (open' (data ! i)) pc leverage long) long (i + td) (i + 1) st
         = Inl e"
  shows "trade data buyAmount td leverage pc long i st = Inl e"
  using assms by (simp add: trade_def Let_def)

lemma trade_monitor_Inr:
  assumes "i < length data"
    and "monitor data (calculateLiquidationPrice (open' (data ! i)) leverage long)
           (calculateProfitLimit (open' (data ! i)) pc leverage long) long (i + td) (i + 1) st
         = Inr (l, p, st1)"
  shows "trade data buyAmount td leverage pc long i st =
     (if l then Inr st1
      else if i + td < length data then
        Inr ((if p then st1 else st1\<lparr>closedPositionsCount := closedPositionsCount st1 + 1\<rparr>)
              \<lparr>wallet := wallet st1 +
                 calculateRemainingAmount
                   (calculateProfitOrLoss
                      (buyAmount * leverage / open' (data ! i) *
                         (if p then calculateProfitLimit (open' (data ! i)) pc leverage long
                          else close (data ! (i + td))))
                      (buyAmount * leverage / open' (data ! i)) (open' (data ! i)) long)
                   buyAmount
                 / close (data ! (i + td))\<rparr>)
      else Inl TypeError)"
proof (cases l)
  case True
  with assms show ?thesis by (simp add: trade_def Let_def)
next
  case False
  note l = this
  show ?thesis
  proof (cases "i + td < length data")
    case True
    with l assms show ?thesis
      by (cases p) (simp_all add: trade_def Let_def calculateExitSoldInUSD_def)
  next
    case False
    with l assms show ?thesis
      by (cases p) (simp_all add: trade_def Let_def calculateExitSoldInUSD_def)
  qed
qed

lemma trade_Inr:
  assumes "trade data buyAmount td leverage pc long i st = Inr st'"
  shows "i < length data \<and>
    (\<exists>l p. monitor data (calculateLiquidationPrice (open' (data ! i)) leverage long)
               (calculateProfitLimit (open' (data ! i)) pc leverage long) long (i + td) (i + 1) st
             = Inr (l, p, if l then st\<lparr>liquidationsCount := liquidationsCount st + 1\<rparr>
                          else if p then st\<lparr>takeProfitsCount := takeProfitsCount st + 1\<rparr>
                          else st)
        \<and> (if l then st' = st\<lparr>liquidationsCount := liquidationsCount st + 1\<rparr>
            else i + td < length data \<and>
              st' = (if p then st\<lparr>takeProfitsCount := takeProfitsCount st + 1\<rparr>
                     else st\<lparr>closedPositionsCount := closedPositionsCount st + 1\<rparr>)
                \<lparr>wallet := wallet st +
                   calculateRemainingAmount
                     (calculateProfitOrLoss
                        (buyAmount * leverage / open' (data ! i) *
                           (if p then calculateProfitLimit (open' (data ! i)) pc leverage long
                            else close (data ! (i + td))))
                        (buyAmount * leverage / open' (data ! i)) (open' (data ! i)) long)
                     buyAmount
                   / close (data ! (i + td))\<rparr>))"
proof -
  have i: "i < length data"
  proof (rule ccontr)
    assume "\<not> i < length data"
    then have "trade data buyAmount td leverage pc long i st = Inl TypeError"
      by (simp add: trade_def)
    with assms show False by simp
  qed
  let ?lp = "calculateLiquidationPrice (open' (data ! i)) leverage long"
  let ?pl = "calculateProfitLimit (open' (data ! i)) pc leverage long"
  obtain l p st1 where
    m: "monitor data ?lp ?pl long (i + td) (i + 1) st = Inr (l, p, st1)"
  proof (cases "monitor data ?lp ?pl long (i + td) (i + 1) st")
    case (Inl e)
    from trade_monitor_Inl[OF i Inl] assms show ?thesis by simp
  next
    case (Inr r)
    then show ?thesis using that by (cases r) auto
  qed
  from monitor_flags[OF m] have
    np: "\<not> (l \<and> p)" and
    st1: "st1 = (if l then st\<lparr>liquidationsCount := liquidationsCount st + 1\<rparr>
            else if p then st\<lparr>takeProfitsCount := takeProfitsCount st + 1\<rparr>
            else st)" by simp_all
  note u = trade_monitor_Inr[OF i m, of buyAmount]
  show ?thesis
  proof (cases l)
    case True
    with assms u st1 have "st' = st\<lparr>liquidationsCount := liquidationsCount st + 1\<rparr>"
      by simp
    with i m st1 True show ?thesis by (intro conjI exI[of _ l] exI[of _ p]) simp_all
  next
    case False
    with assms u have ex: "i + td < length data"
      by (simp split: if_splits)
    show ?thesis
    proof (cases p)
      case True
      with assms u st1 False ex i m show ?thesis
        by (intro conjI exI[of _ l] exI[of _ p]) simp_all
    next
      case p: False
      with assms u st1 False ex i m show ?thesis
        by (intro conjI exI[of _ l] exI[of _ p]) simp_all
    qed
  qed
qed

lemma trade_total:
  assumes "i + td < length data"
  shows "\<exists>st'. trade data buyAmount td leverage pc long i st = Inr st'"
proof -
  from assms have i: "i < length data" by simp
  from monitor_total[OF assms] obtain l p st1 where
    "monitor data (calculateLiquidationPrice (open' (data ! i)) leverage long)
               (calculateProfitLimit (open' (data ! i)) pc leverage long) long (i + td) (i + 1) st
       = Inr (l, p, st1)"
    by (metis prod_cases3)
  from trade_monitor_Inr[OF i this, of buyAmount] assms show ?thesis
    by simp
qed

lemma trade_counts:
  assumes "trade data buyAmount td leverage pc long i st = Inr st'"
  shows "liquidationsCount st' + takeProfitsCount st' + closedPositionsCount st'
         = Suc (liquidationsCount st + takeProfitsCount st + closedPositionsCount st)"
  using trade_Inr[OF assms] by (auto split: if_splits)

section \<open>The entry loop\<close>

lemma from_stop:
  "\<not> i + bf < length data \<Longrightarrow>
     dcaWithLeverage_from data bf amt td lev pc long i st = Some (Inr st)"
  by (subst dcaWithLeverage_from.simps) simp

lemma from_step:
  "i + bf < length data \<Longrightarrow> trade data amt td lev pc long i st = Inr st' \<Longrightarrow>
     dcaWithLeverage_from data bf amt td lev pc long i st =
       dcaWithLeverage_from data bf amt td lev pc long (i + bf) st'"
  by (rule trans[OF dcaWithLeverage_from.simps]) simp

lemma from_fault:
  "i + bf < length data \<Longrightarrow> trade data amt td lev pc long i st = Inl e \<Longrightarrow>
     dcaWithLeverage_from data bf amt td lev pc long i st = Some (Inl e)"
  by (rule trans[OF dcaWithLeverage_from.simps]) simp

lemma from_returns:
  assumes "0 < bf"
  shows "\<exists>r. dcaWithLeverage_from data bf amt td lev pc long i st = Some r"
proof (induction "length data - i" arbitrary: i st rule: less_induct)
  case less
  show ?case
  proof (cases "i + bf < length data")
    case False
    then show ?thesis by (simp add: from_stop)
  next
    case True
    show ?thesis
    proof (cases "trade data amt td lev pc long i st")
      case (Inl e)
      from from_fault[OF True Inl] show ?thesis by simp
    next
      case (Inr st')
      from True assms have "length data - (i + bf) < length data - i" by simp
      from less[OF this] from_step[OF True Inr] show ?thesis by simp
    qed
  qed
qed

lemma from_counts:
  assumes "0 < bf"
  shows "dcaWithLeverage_from data bf amt td lev pc long i st = Some (Inr r) \<Longrightarrow>
    liquidationsCount r + takeProfitsCount r + closedPositionsCount r
      = liquidationsCount st + takeProfitsCount st + closedPositionsCount st
        + (length data - i - 1) div bf"
proof (induction "length data - i" arbitrary: i st rule: less_induct)
  case less
  show ?case
  proof (cases "i + bf < length data")
    case False
    then have "length data - i - 1 < bf" using assms by arith
    then have "(length data - i - 1) div bf = 0" by simp
    with False less.prems show ?thesis by (simp add: from_stop)
  next
    case True
    obtain st' where t: "trade data amt td lev pc long i st = Inr st'"
    proof (cases "trade data amt td lev pc long i st")
      case (Inl e)
      from from_fault[OF True Inl] less.prems show ?thesis by simp
    next
      case (Inr st')
      then show ?thesis using that by simp
    qed
    from from_step[OF True t] less.prems
    have r: "dcaWithLeverage_from data bf amt td lev pc long (i + bf) st' = Some (Inr r)"
      by simp
    from True assms have d: "length data - (i + bf) < length data - i" by simp
    have "(length data - i - 1) div bf = Suc ((length data - (i + bf) - 1) div bf)"
    proof -
      have "length data - i - 1 = (length data - (i + bf) - 1) + bf"
        using True by arith
      then have "(length data - i - 1) div bf = ((length data - (i + bf) - 1) + bf) div bf"
        by (rule arg_cong)
      also have "\<dots> = Suc ((length data - (i + bf) - 1) div bf)"
        using assms by simp
      finally show ?thesis .
    qed
    with less.hyps[OF d r] trade_counts[OF t] show ?thesis by simp
  qed
qed

lemma from_completes:
  assumes "0 < bf" "td \<le> bf"
  shows "\<exists>r. dcaWithLeverage_from data bf amt td lev pc long i st = Some (Inr r)"
proof (induction "length data - i" arbitrary: i st rule: less_induct)
  case less
  show ?case
  proof (cases "i + bf < length data")
    case False
    then show ?thesis by (simp add: from_stop)
  next
    case True
    with assms have "i + td < length data" by simp
    from trade_total[OF this] obtain st' where
      t: "trade data amt td lev pc long i st = Inr st'" by blast
    from True assms have "length data - (i + bf) < length data - i" by simp
    from less[OF this] from_step[OF True t] show ?thesis by simp
  qed
qed

lemma dcaWithLeverage_completes:
  "0 < bf \<Longrightarrow> td \<le> bf \<Longrightarrow>
     \<exists>r. dcaWithLeverage data bf buyAmount td leverage pc long = Some (Inr r)"
  unfolding dcaWithLeverage_def by (rule from_completes)

lemma entryEvents_length:
  assumes "0 < bf"
  shows "length (entryEvents n bf) = (n - 1) div bf"
proof -
  have "set (entryEvents n bf) = (\<lambda>k. k * bf) ` {0..<(n - 1) div bf}"
  proof (intro set_eqI iffI)
    fix i assume "i \<in> set (entryEvents n bf)"
    then have "bf dvd i" "i + bf < n" by (simp_all add: entryEvents_def)
    then obtain k where k: "i = k * bf" by (metis dvd_def mult.commute)
    with \<open>i + bf < n\<close> have "Suc k * bf \<le> n - 1" by simp
    then have "Suc k \<le> (n - 1) div bf" using assms
      by (simp add: less_eq_div_iff_mult_less_eq)
    with k show "i \<in> (\<lambda>k. k * bf) ` {0..<(n - 1) div bf}" by auto
  next
    fix i assume "i \<in> (\<lambda>k. k * bf) ` {0..<(n - 1) div bf}"
    then obtain k where "k \<in> {0..<(n - 1) div bf}" and ik: "i = k * bf" by blast
    then have k: "i = k * bf" "Suc k \<le> (n - 1) div bf" by simp_all
    then have "Suc k * bf \<le> n - 1" using assms
      by (simp add: less_eq_div_iff_mult_less_eq)
    then have "i + bf < n" "i < n" using k assms by simp_all
    with k show "i \<in> set (entryEvents n bf)" by (simp add: entryEvents_def)
  qed
  moreover have "distinct (entryEvents n bf)" by (simp add: entryEvents_def)
  moreover have "inj_on (\<lambda>k. k * bf) {0..<(n - 1) div bf}"
    using assms by (simp add: inj_on_def)
  ultimately show ?thesis
    by (metis card_image card_atLeastLessThan diff_zero distinct_card)
qed

lemma entryEvents_in_range:
  "td \<le> bf \<Longrightarrow> filter (\<lambda>i. i + td < n) (entryEvents n bf) = entryEvents n bf"
  by (auto simp: entryEvents_def intro!: filter_cong)

section \<open>Runs on the example series\<close>

lemmas run_simps = dcaWithLeverage_def dcaWithLeverage_from.simps trade_def monitor.simps
  at_index_def isLiquidated_def isProfitTaken_def calculateLiquidationPrice_def
  calculateProfitLimit_def calculateExitSoldInUSD_def calculateProfitOrLoss_def
  calculateRemainingAmount_def candle_def Let_def


lemma three_bars_crash_run:
  "dcaWithLeverage three_bars_crash 1 100 5 10 100 True
     = Some (Inr \<lparr>wallet = 0, liquidationsCount = 2, takeProfitsCount = 0,
                    closedPositionsCount = 0\<rparr>)"
  by (simp add: run_simps three_bars_crash_def)

lemma four_bars_run:
  "dcaWithLeverage four_bars 2 100 1 10 100 True
     = Some (Inr \<lparr>wallet = 2, liquidationsCount = 0, takeProfitsCount = 1,
                    closedPositionsCount = 0\<rparr>)"
  by (simp add: run_simps four_bars_def)

lemma four_bars_trade:
  "trade four_bars 100 1 10 100 True 0 no_result
     = Inr \<lparr>wallet = 2, liquidationsCount = 0, takeProfitsCount = 1,
                    closedPositionsCount = 0\<rparr>"
  by (simp add: run_simps four_bars_def no_result_def)

section \<open>Exit indices beyond the series\<close>





section \<open>Outcome counts\<close>

text \<open>
  C2, as the code has it. After a completed run with a positive cadence the three counts
  add up to the number of all entry events; when the holding window is no longer than the
  cadence, every entry event has its exit index inside the series, and the sum is the
  number of entry events with an exit index inside the series.
\<close>

theorem counts_cover_entry_events:
  assumes "0 < bf"
    and "dcaWithLeverage data bf buyAmount td leverage pc long = Some (Inr r)"
  shows "liquidationsCount r + takeProfitsCount r + closedPositionsCount r
           = length (entryEvents (length data) bf)
     \<and> (td \<le> bf \<longrightarrow>
          liquidationsCount r + takeProfitsCount r + closedPositionsCount r
            = length (filter (\<lambda>i. i + td < length data) (entryEvents (length data) bf)))"
proof -
  from assms(2) have
    "dcaWithLeverage_from data bf buyAmount td leverage pc long 0
       \<lparr>wallet = 0, liquidationsCount = 0, takeProfitsCount = 0, closedPositionsCount = 0\<rparr>
     = Some (Inr r)"
    by (simp add: dcaWithLeverage_def)
  from from_counts[OF assms(1) this] have
    "liquidationsCount r + takeProfitsCount r + closedPositionsCount r
       = (length data - 1) div bf" by simp
  then have "liquidationsCount r + takeProfitsCount r + closedPositionsCount r
           = length (entryEvents (length data) bf)"
    by (simp add: entryEvents_length[OF assms(1)])
  then show ?thesis by (simp add: entryEvents_in_range)
qed

theorem counts_cover_entry_events_witness:
  "(0::nat) < 2
   \<and> dcaWithLeverage four_bars 2 100 1 10 100 True
       = Some (Inr \<lparr>wallet = 2, liquidationsCount = 0, takeProfitsCount = 1,
                      closedPositionsCount = 0\<rparr>)
   \<and> liquidationsCount \<lparr>wallet = 2, liquidationsCount = 0, takeProfitsCount = 1,
                          closedPositionsCount = 0\<rparr>
       + takeProfitsCount \<lparr>wallet = 2, liquidationsCount = 0, takeProfitsCount = 1,
                           closedPositionsCount = 0\<rparr>
       + closedPositionsCount \<lparr>wallet = 2, liquidationsCount = 0, takeProfitsCount = 1,
                               closedPositionsCount = 0\<rparr>
       = length (entryEvents (length four_bars) 2)
   \<and> liquidationsCount \<lparr>wallet = 2, liquidationsCount = 0, takeProfitsCount = 1,
                          closedPositionsCount = 0\<rparr>
       + takeProfitsCount \<lparr>wallet = 2, liquidationsCount = 0, takeProfitsCount = 1,
                           closedPositionsCount = 0\<rparr>
       + closedPositionsCount \<lparr>wallet = 2, liquidationsCount = 0, takeProfitsCount = 1,
                               closedPositionsCount = 0\<rparr>
       = length (filter (\<lambda>i. i + 1 < length four_bars) (entryEvents (length four_bars) 2))"
proof -
  have h1: "(0::nat) < 2" by simp
  note c = counts_cover_entry_events[OF h1 four_bars_run]
  have le: "(1::nat) \<le> 2" by simp
  show ?thesis
    using h1 four_bars_run c[THEN conjunct1] c[THEN conjunct2, rule_format, OF le]
    by (intro conjI) assumption+
qed

theorem counts_exceed_resolvable_entries:
  "dcaWithLeverage three_bars_crash 1 100 5 10 100 True
     = Some (Inr \<lparr>wallet = 0, liquidationsCount = 2, takeProfitsCount = 0,
                    closedPositionsCount = 0\<rparr>)
   \<and> filter (\<lambda>i. i + 5 < length three_bars_crash) (entryEvents (length three_bars_crash) 1) = []"
proof -
  have "filter (\<lambda>i. i + 5 < length three_bars_crash) (entryEvents (length three_bars_crash) 1) = []"
    unfolding three_bars_crash_def by code_simp
  then show ?thesis using three_bars_crash_run by simp
qed

section \<open>Priority of liquidation\<close>

text \<open>
  C3. When the monitoring loop reaches a bar on which the liquidation condition or the
  profit-target condition holds, every earlier bar of the window having met neither, the
  trade is resolved on that bar and the loop stops: as liquidated when the liquidation
  condition holds there, whether or not the profit-target condition holds too, and as
  profit-taken only when the profit-target condition holds alone. For a long position the
  liquidation condition is \<open>low \<le> liquidationPrice\<close> and the profit-target condition is
  \<open>high \<ge> profitLimitPrice\<close>; for a short position they are mirrored.
\<close>

theorem monitor_first_hit:
  assumes "j \<le> m" and "m \<le> exitIndex" and "m < length data"
    and "\<forall>k. j \<le> k \<and> k < m \<longrightarrow>
        \<not> (if long then low (data ! k) \<le> liquidationPrice
            else liquidationPrice \<le> high (data ! k))
      \<and> \<not> (if long then profitLimitPrice \<le> high (data ! k)
            else low (data ! k) \<le> profitLimitPrice)"
    and "(if long then low (data ! m) \<le> liquidationPrice
          else liquidationPrice \<le> high (data ! m))
         \<or> (if long then profitLimitPrice \<le> high (data ! m)
             else low (data ! m) \<le> profitLimitPrice)"
  shows "monitor data liquidationPrice profitLimitPrice long exitIndex j st =
     (if (if long then low (data ! m) \<le> liquidationPrice
          else liquidationPrice \<le> high (data ! m))
      then Inr (True, False, st\<lparr>liquidationsCount := liquidationsCount st + 1\<rparr>)
      else Inr (False, True, st\<lparr>takeProfitsCount := takeProfitsCount st + 1\<rparr>))"
  using monitor_first_hit_aux[OF assms(2,3,5,1,4)] .

theorem monitor_first_hit_witness:
  "monitor wide_bar 90 110 True 3 1 no_result
     = Inr (True, False, no_result\<lparr>liquidationsCount := liquidationsCount no_result + 1\<rparr>)"
proof -
  have q: "\<forall>k. (1::nat) \<le> k \<and> k < 2 \<longrightarrow>
        \<not> (if True then low (wide_bar ! k) \<le> 90 else 90 \<le> high (wide_bar ! k))
      \<and> \<not> (if True then 110 \<le> high (wide_bar ! k) else low (wide_bar ! k) \<le> 110)"
  proof (intro allI impI)
    fix k :: nat assume "1 \<le> k \<and> k < 2"
    then have "k = 1" by arith
    then show "\<not> (if True then low (wide_bar ! k) \<le> 90 else 90 \<le> high (wide_bar ! k))
      \<and> \<not> (if True then 110 \<le> high (wide_bar ! k) else low (wide_bar ! k) \<le> 110)"
      by (simp add: wide_bar_def candle_def)
  qed
  have h: "(if True then low (wide_bar ! 2) \<le> 90 else 90 \<le> high (wide_bar ! 2))
         \<or> (if True then 110 \<le> high (wide_bar ! 2) else low (wide_bar ! 2) \<le> 110)"
    by (simp add: wide_bar_def candle_def)
  have b: "low (wide_bar ! 2) \<le> 90" by (simp add: wide_bar_def candle_def)
  have "(1::nat) \<le> 2" "(2::nat) \<le> 3" "2 < length wide_bar"
    by (simp_all add: wide_bar_def)
  from monitor_first_hit[OF this q h, of no_result] b show ?thesis by simp
qed

section \<open>Settlement\<close>

text \<open>
  C4. A trade that completes either is liquidated, and then only the liquidation count
  changes, or has its exit index inside the series and is profit-taken or time-expired.
  In the second case the exit value is the units acquired times the profit-limit price
  when profit was taken and times the exit candle's close otherwise, the remaining
  capital is the direction-adjusted profit or loss plus the buy amount, and the wallet
  grows by the remaining capital divided by the exit candle's close.
\<close>

theorem trade_settlement:
  assumes "trade data buyAmount td leverage pc long i st = Inr st'"
  shows "st' = st\<lparr>liquidationsCount := liquidationsCount st + 1\<rparr>
     \<or> (i + td < length data \<and>
         (\<exists>profitTaken.
            st' = (if profitTaken then st\<lparr>takeProfitsCount := takeProfitsCount st + 1\<rparr>
                   else st\<lparr>closedPositionsCount := closedPositionsCount st + 1\<rparr>)
              \<lparr>wallet := wallet st +
                 (let entryPrice = open' (data ! i);
                      unitsAcquired = buyAmount * leverage / entryPrice;
                      exitValueInCapital = unitsAcquired *
                        (if profitTaken then calculateProfitLimit entryPrice pc leverage long
                         else close (data ! (i + td)));
                      profitOrLoss =
                        (if long then exitValueInCapital - unitsAcquired * entryPrice
                         else unitsAcquired * entryPrice - exitValueInCapital);
                      remainingCapital = profitOrLoss + buyAmount
                  in remainingCapital / close (data ! (i + td)))\<rparr>))"
proof -
  let ?pl = "calculateProfitLimit (open' (data ! i)) pc leverage long"
  from trade_Inr[OF assms] obtain l p where
    c: "if l then st' = st\<lparr>liquidationsCount := liquidationsCount st + 1\<rparr>
            else i + td < length data \<and>
              st' = (if p then st\<lparr>takeProfitsCount := takeProfitsCount st + 1\<rparr>
                     else st\<lparr>closedPositionsCount := closedPositionsCount st + 1\<rparr>)
                \<lparr>wallet := wallet st +
                   calculateRemainingAmount
                     (calculateProfitOrLoss
                        (buyAmount * leverage / open' (data ! i) *
                           (if p then ?pl else close (data ! (i + td))))
                        (buyAmount * leverage / open' (data ! i)) (open' (data ! i)) long)
                     buyAmount
                   / close (data ! (i + td))\<rparr>"
    by blast
  show ?thesis
  proof (cases l)
    case True
    with c show ?thesis by simp
  next
    case False
    with c have r: "i + td < length data"
      and s: "st' = (if p then st\<lparr>takeProfitsCount := takeProfitsCount st + 1\<rparr>
                     else st\<lparr>closedPositionsCount := closedPositionsCount st + 1\<rparr>)
                \<lparr>wallet := wallet st +
                   calculateRemainingAmount
                     (calculateProfitOrLoss
                        (buyAmount * leverage / open' (data ! i) *
                           (if p then ?pl else close (data ! (i + td))))
                        (buyAmount * leverage / open' (data ! i)) (open' (data ! i)) long)
                     buyAmount
                   / close (data ! (i + td))\<rparr>"
      by simp_all
    from s have "st' = (if p then st\<lparr>takeProfitsCount := takeProfitsCount st + 1\<rparr>
                   else st\<lparr>closedPositionsCount := closedPositionsCount st + 1\<rparr>)
              \<lparr>wallet := wallet st +
                 (let entryPrice = open' (data ! i);
                      unitsAcquired = buyAmount * leverage / entryPrice;
                      exitValueInCapital = unitsAcquired *
                        (if p then calculateProfitLimit entryPrice pc leverage long
                         else close (data ! (i + td)));
                      profitOrLoss =
                        (if long then exitValueInCapital - unitsAcquired * entryPrice
                         else unitsAcquired * entryPrice - exitValueInCapital);
                      remainingCapital = profitOrLoss + buyAmount
                  in remainingCapital / close (data ! (i + td)))\<rparr>"
      by (simp only: Let_def calculateRemainingAmount_def calculateProfitOrLoss_def)
    with r show ?thesis by blast
  qed
qed

theorem trade_settlement_witness:
  "trade four_bars 100 1 10 100 True 0 no_result
     = Inr \<lparr>wallet = 2, liquidationsCount = 0, takeProfitsCount = 1,
            closedPositionsCount = 0\<rparr>
   \<and> (\<lparr>wallet = 2, liquidationsCount = 0, takeProfitsCount = 1, closedPositionsCount = 0\<rparr>
        = no_result\<lparr>liquidationsCount := liquidationsCount no_result + 1\<rparr>
      \<or> 0 + 1 < length four_bars)"
proof -
  from trade_settlement[OF four_bars_trade] have
    "\<lparr>wallet = 2, liquidationsCount = 0, takeProfitsCount = 1, closedPositionsCount = 0\<rparr>
        = no_result\<lparr>liquidationsCount := liquidationsCount no_result + 1\<rparr>
      \<or> 0 + 1 < length four_bars"
    by blast
  with four_bars_trade show ?thesis by blast
qed

section \<open>Series shorter than one period\<close>

text \<open>
  C9. On a series no longer than the cadence, the empty series included, the simulator
  has no entry event and returns a zero wallet and zero counts, whatever the candles
  hold: it reads none of them.
\<close>

theorem dcaWithLeverage_short_series:
  assumes "length data \<le> bf"
  shows "dcaWithLeverage data bf buyAmount td leverage pc long
       = Some (Inr \<lparr>wallet = 0, liquidationsCount = 0, takeProfitsCount = 0,
                      closedPositionsCount = 0\<rparr>)
     \<and> entryEvents (length data) bf = []
     \<and> dcaWithLeverage (map f data) bf buyAmount td leverage pc long
         = dcaWithLeverage data bf buyAmount td leverage pc long"
proof -
  from assms have a: "\<not> 0 + bf < length data" and b: "\<not> 0 + bf < length (map f data)"
    by simp_all
  have "dcaWithLeverage data bf buyAmount td leverage pc long
       = Some (Inr \<lparr>wallet = 0, liquidationsCount = 0, takeProfitsCount = 0,
                      closedPositionsCount = 0\<rparr>)"
    unfolding dcaWithLeverage_def by (rule from_stop[OF a])
  moreover have "dcaWithLeverage (map f data) bf buyAmount td leverage pc long
       = Some (Inr \<lparr>wallet = 0, liquidationsCount = 0, takeProfitsCount = 0,
                      closedPositionsCount = 0\<rparr>)"
    unfolding dcaWithLeverage_def by (rule from_stop[OF b])
  moreover from assms have "entryEvents (length data) bf = []"
    by (simp add: entryEvents_def filter_empty_conv)
  ultimately show ?thesis by simp
qed

theorem dcaWithLeverage_short_series_witness:
  "length [candle 0 100 100 100 100] \<le> (1::nat)
   \<and> dcaWithLeverage [candle 0 100 100 100 100] 1 100 1 10 100 True
       = Some (Inr \<lparr>wallet = 0, liquidationsCount = 0, takeProfitsCount = 0,
                      closedPositionsCount = 0\<rparr>)
   \<and> entryEvents (length [candle 0 100 100 100 100]) 1 = []"
proof -
  have h: "length [candle 0 100 100 100 100] \<le> (1::nat)" by simp
  from dcaWithLeverage_short_series[OF h, of 100 1 10 100 True id] h
  show ?thesis by blast
qed

section \<open>The grid sweep\<close>

lemma dcaWithLeverage_returns:
  "0 < bf \<Longrightarrow> \<exists>r. dcaWithLeverage data bf buyAmount td leverage pc long = Some r"
  unfolding dcaWithLeverage_def by (rule from_returns)

lemma sweep_fault:
  assumes "0 < bf"
    and "dcaWithLeverage data bf amt td (real i) (real j) True = Some (Inl e)"
  shows "(i, j) \<in> set cells \<Longrightarrow> sweep data B bf amt td cells rows = Some (Inl TypeError)"
proof (induction cells arbitrary: rows)
  case Nil
  then show ?case by simp
next
  case (Cons c cells)
  obtain i' j' where c: "c = (i', j')" by (cases c)
  from dcaWithLeverage_returns[OF assms(1)] obtain r where
    r: "dcaWithLeverage data bf amt td (real i') (real j') True = Some r" by blast
  show ?case
  proof (cases r)
    case (Inl e')
    then have "r = Inl TypeError" by (cases e') simp
    with r c show ?thesis by simp
  next
    case (Inr res)
    with r assms(2) have "(i', j') \<noteq> (i, j)" by auto
    with Cons.prems c have "(i, j) \<in> set cells" by auto
    from Cons.IH[OF this] r Inr c show ?thesis by simp
  qed
qed

lemma sweep_rows:
  "sweep data B bf amt td cells rows0 = Some (Inr rows) \<Longrightarrow>
     \<exists>new. rows = rows0 @ new \<and>
       list_all2 (\<lambda>c row. \<exists>r. dcaWithLeverage data bf amt td (real (fst c)) (real (snd c)) True
                                 = Some (Inr r)
                             \<and> row = make_row B (fst c) (snd c) r) cells new"
proof (induction cells arbitrary: rows0)
  case Nil
  then show ?case by simp
next
  case (Cons c cells)
  obtain i j where c: "c = (i, j)" by (cases c)
  from Cons.prems c obtain r where
    r: "dcaWithLeverage data bf amt td (real i) (real j) True = Some (Inr r)"
    and s: "sweep data B bf amt td cells (rows0 @ [make_row B i j r]) = Some (Inr rows)"
    by (auto split: option.splits sum.splits)
  from Cons.IH[OF s] obtain new where
    n: "rows = (rows0 @ [make_row B i j r]) @ new"
    and l: "list_all2 (\<lambda>c row. \<exists>r. dcaWithLeverage data bf amt td (real (fst c)) (real (snd c)) True
                                 = Some (Inr r)
                             \<and> row = make_row B (fst c) (snd c) r) cells new"
    by blast
  from n l r c show ?case
    by (intro exI[of _ "make_row B i j r # new"]) simp
qed

lemma sweep_all:
  "(\<And>i j. (i, j) \<in> set cells \<Longrightarrow>
      dcaWithLeverage data bf amt td (real i) (real j) True = Some (Inr (res i j))) \<Longrightarrow>
   sweep data B bf amt td cells rows0
     = Some (Inr (rows0 @ map (\<lambda>(i, j). make_row B i j (res i j)) cells))"
proof (induction cells arbitrary: rows0)
  case Nil
  then show ?case by simp
next
  case (Cons c cells)
  obtain i j where c: "c = (i, j)" by (cases c)
  from Cons.prems[of i j] c have
    r: "dcaWithLeverage data bf amt td (real i) (real j) True = Some (Inr (res i j))" by simp
  have "sweep data B bf amt td cells (rows0 @ [make_row B i j (res i j)])
     = Some (Inr ((rows0 @ [make_row B i j (res i j)]) @ map (\<lambda>(i, j). make_row B i j (res i j)) cells))"
    by (rule Cons.IH) (simp add: Cons.prems)
  with r c show ?case by simp
qed

lemma sort_key_constant:
  "(\<And>x. x \<in> set xs \<Longrightarrow> f x = c) \<Longrightarrow> sort_key f xs = xs"
proof (induction xs)
  case Nil
  then show ?case by simp
next
  case (Cons x xs)
  then have "sort_key f xs = xs" by simp
  moreover have "insort_key f x xs = x # xs"
    by (rule insort_is_Cons) (simp add: Cons.prems)
  ultimately show ?case by simp
qed

lemma sorted_descending:
  "sorted_wrt (\<lambda>a b. f b \<le> f a) (sort_key (\<lambda>a. - f a) (xs :: row list))"
  for f :: "row \<Rightarrow> real"
proof -
  have "sorted (map (\<lambda>a. - f a) (sort_key (\<lambda>a. - f a) xs))" by (rule sorted_sort_key)
  then show ?thesis by (simp add: sorted_wrt_map)
qed

lemma grid_bounds:
  "(i, j) \<in> set grid \<Longrightarrow> 5 \<le> i \<and> i \<le> 100 \<and> 50 \<le> j \<and> j \<le> 1000"
  by (auto simp: grid_def)

lemma grid_first: "(5, 50) \<in> set grid"
  unfolding grid_def by (auto intro!: bexI[of _ 5] bexI[of _ 1])

subsection \<open>A fault in one cell\<close>

lemma two_bars_dip_low_leverage:
  "dcaWithLeverage two_bars_dip 1 100 2 5 50 True = Some (Inl TypeError)"
  by (simp add: run_simps two_bars_dip_def)

lemma two_bars_dip_high_leverage:
  "dcaWithLeverage two_bars_dip 1 100 2 100 50 True
     = Some (Inr \<lparr>wallet = 0, liquidationsCount = 1, takeProfitsCount = 0,
                    closedPositionsCount = 0\<rparr>)"
  by (simp add: run_simps two_bars_dip_def)

lemma simulateEveryLeverages_fault:
  assumes "0 < bf" and "(i, j) \<in> set grid"
    and "dcaWithLeverage data bf amt td (real i) (real j) True = Some (Inl e)"
  shows "simulateEveryLeverages data B bf amt td = Some (Inl TypeError)"
  unfolding simulateEveryLeverages_def
  by (simp add: sweep_fault[OF assms(1,3,2)])

lemma two_bars_dip_sweep:
  "simulateEveryLeverages two_bars_dip 2 1 100 2 = Some (Inl TypeError)"
proof -
  have "dcaWithLeverage two_bars_dip 1 100 2 (real 5) (real 50) True = Some (Inl TypeError)"
    using two_bars_dip_low_leverage by simp
  with grid_first show ?thesis
    by (intro simulateEveryLeverages_fault[of 1 5 50]) simp_all
qed

text \<open>
  C8, as the code has it. Nothing in the sweep catches a fault: when the simulator faults
  on one cell of the grid, the whole sweep stops with that fault and yields no row, for
  any cell. (A zero or negative close price raises no fault in the program; the only
  fault is the \<open>TypeError\<close> of a candle read beyond the series.)
\<close>

theorem fault_aborts_sweep:
  assumes "0 < bf" and "(i, j) \<in> set grid"
    and "dcaWithLeverage data bf amt td (real i) (real j) True = Some (Inl e)"
  shows "simulateEveryLeverages data B bf amt td = Some (Inl TypeError)"
  using assms by (rule simulateEveryLeverages_fault)

theorem fault_aborts_sweep_witness:
  "(0::nat) < 1 \<and> (5, 50) \<in> set grid
   \<and> dcaWithLeverage two_bars_dip 1 100 2 (real 5) (real 50) True = Some (Inl TypeError)
   \<and> simulateEveryLeverages two_bars_dip 2 1 100 2 = Some (Inl TypeError)"
proof -
  have h1: "(0::nat) < 1" by simp
  have h3: "dcaWithLeverage two_bars_dip 1 100 2 (real 5) (real 50) True = Some (Inl TypeError)"
    using two_bars_dip_low_leverage by simp
  from fault_aborts_sweep[OF h1 grid_first h3, of 2] h1 grid_first h3
  show ?thesis by blast
qed

theorem poisoned_cell_aborts_sweep:
  "dcaWithLeverage two_bars_dip 1 100 2 5 50 True = Some (Inl TypeError)
   \<and> dcaWithLeverage two_bars_dip 1 100 2 100 50 True
       = Some (Inr \<lparr>wallet = 0, liquidationsCount = 1, takeProfitsCount = 0,
                      closedPositionsCount = 0\<rparr>)
   \<and> simulateEveryLeverages two_bars_dip 2 1 100 2 = Some (Inl TypeError)"
  using two_bars_dip_low_leverage two_bars_dip_high_leverage two_bars_dip_sweep by blast

subsection \<open>The order of the rows\<close>

lemma simulateEveryLeverages_rows:
  assumes "simulateEveryLeverages data B bf amt td = Some (Inr rows)"
  shows "\<exists>unsorted. rows = sort_key (\<lambda>a. - BTC_accumulated_vs_classic_DCA a) unsorted
     \<and> list_all2 (\<lambda>c row. \<exists>r. dcaWithLeverage data bf amt td (real (fst c)) (real (snd c)) True
                                 = Some (Inr r)
                             \<and> row = make_row B (fst c) (snd c) r) grid unsorted"
proof -
  from assms obtain unsorted where
    s: "sweep data B bf amt td grid [] = Some (Inr unsorted)"
    and r: "rows = sort_key (\<lambda>a. - BTC_accumulated_vs_classic_DCA a) unsorted"
    by (auto simp: simulateEveryLeverages_def split: option.splits sum.splits)
  from sweep_rows[OF s] r show ?thesis by auto
qed

lemma list_all2_map_eq:
  "list_all2 (\<lambda>x y. g y = x) xs ys \<Longrightarrow> map g ys = xs"
  by (induction rule: list_all2_induct) simp_all

lemma simulateEveryLeverages_cells:
  assumes "simulateEveryLeverages data B bf amt td = Some (Inr rows)"
  shows "mset (map (\<lambda>row. (Leverage row, Auto_take_profit row)) rows) = mset grid"
proof -
  from simulateEveryLeverages_rows[OF assms] obtain unsorted where
    r: "rows = sort_key (\<lambda>a. - BTC_accumulated_vs_classic_DCA a) unsorted"
    and l: "list_all2 (\<lambda>c row. \<exists>r. dcaWithLeverage data bf amt td (real (fst c)) (real (snd c)) True
                                 = Some (Inr r)
                             \<and> row = make_row B (fst c) (snd c) r) grid unsorted"
    by blast
  from l have "list_all2 (\<lambda>c row. (Leverage row, Auto_take_profit row) = c) grid unsorted"
    by (rule list_all2_mono) (auto simp: make_row_def)
  then have "map (\<lambda>row. (Leverage row, Auto_take_profit row)) unsorted = grid"
    by (rule list_all2_map_eq)
  then have "mset (map (\<lambda>row. (Leverage row, Auto_take_profit row)) unsorted) = mset grid"
    by simp
  with r show ?thesis by simp
qed

lemma simulateEveryLeverages_row:
  assumes "simulateEveryLeverages data B bf amt td = Some (Inr rows)"
    and "row \<in> set rows"
  shows "\<exists>r. dcaWithLeverage data bf amt td (real (Leverage row))
                   (real (Auto_take_profit row)) True = Some (Inr r)
               \<and> row = make_row B (Leverage row) (Auto_take_profit row) r
               \<and> BTC_accumulated_vs_classic_DCA row
                   = toFixed ((wallet r / B) * 100 - 100) 2"
proof -
  from simulateEveryLeverages_rows[OF assms(1)] obtain unsorted where
    r: "rows = sort_key (\<lambda>a. - BTC_accumulated_vs_classic_DCA a) unsorted"
    and l: "list_all2 (\<lambda>c row. \<exists>r. dcaWithLeverage data bf amt td (real (fst c)) (real (snd c)) True
                                 = Some (Inr r)
                             \<and> row = make_row B (fst c) (snd c) r) grid unsorted"
    by blast
  from r assms(2) have "row \<in> set unsorted" by simp
  then obtain k where k: "k < length unsorted" "row = unsorted ! k"
    by (auto simp: in_set_conv_nth)
  from list_all2_nthD2[OF l k(1)] k(2) obtain res where
    res: "dcaWithLeverage data bf amt td (real (fst (grid ! k))) (real (snd (grid ! k))) True
            = Some (Inr res)"
    and row: "row = make_row B (fst (grid ! k)) (snd (grid ! k)) res"
    by blast
  from row have f: "Leverage row = fst (grid ! k)" "Auto_take_profit row = snd (grid ! k)"
    "BTC_accumulated_vs_classic_DCA row = toFixed ((wallet res / B) * 100 - 100) 2"
    by (simp_all add: make_row_def diffenceInPercentage_def)
  from res row f show ?thesis by (intro exI[of _ res]) simp
qed

text \<open>
  C7, as the code has it. Take a nonzero baseline and a series whose open and close prices
  are all nonzero, so that no quotient of the sweep has a zero denominator. For every grid
  cell the sweep computes \<open>(wallet / dcaClassicWallet) * 100 - 100\<close> and keeps it in that
  cell's row rounded to two decimals; the rows it hands on are exactly one for every grid
  cell, each built from the simulator's result for its cell, and they are sorted in
  descending order of the rounded value. For a wallet equal to a nonzero baseline the
  percentage is 0.
\<close>

theorem rows_sorted_by_rounded_difference:
  assumes "simulateEveryLeverages data B bf amt td = Some (Inr rows)"
    and "B \<noteq> 0" and "\<forall>c \<in> set data. open' c \<noteq> 0 \<and> close c \<noteq> 0"
  shows "sorted_wrt (\<lambda>a b. BTC_accumulated_vs_classic_DCA b \<le> BTC_accumulated_vs_classic_DCA a) rows
     \<and> mset (map (\<lambda>row. (Leverage row, Auto_take_profit row)) rows) = mset grid
     \<and> (\<forall>row \<in> set rows.
           \<exists>r. dcaWithLeverage data bf amt td (real (Leverage row))
                   (real (Auto_take_profit row)) True = Some (Inr r)
               \<and> row = make_row B (Leverage row) (Auto_take_profit row) r
               \<and> BTC_accumulated_vs_classic_DCA row
                   = toFixed ((wallet r / B) * 100 - 100) 2)
     \<and> (w \<noteq> 0 \<longrightarrow> diffenceInPercentage w w = 0)"
proof -
  from simulateEveryLeverages_rows[OF assms(1)] obtain unsorted where
    r: "rows = sort_key (\<lambda>a. - BTC_accumulated_vs_classic_DCA a) unsorted"
    by blast
  from r have "sorted_wrt (\<lambda>a b. BTC_accumulated_vs_classic_DCA b \<le> BTC_accumulated_vs_classic_DCA a) rows"
    by (simp only: sorted_descending)
  moreover note simulateEveryLeverages_cells[OF assms(1)]
  moreover have "\<forall>row \<in> set rows.
           \<exists>r. dcaWithLeverage data bf amt td (real (Leverage row))
                   (real (Auto_take_profit row)) True = Some (Inr r)
               \<and> row = make_row B (Leverage row) (Auto_take_profit row) r
               \<and> BTC_accumulated_vs_classic_DCA row
                   = toFixed ((wallet r / B) * 100 - 100) 2"
    using simulateEveryLeverages_row[OF assms(1)] by blast
  moreover have "w \<noteq> 0 \<longrightarrow> diffenceInPercentage w w = 0"
    by (simp add: diffenceInPercentage_def)
  ultimately show ?thesis by blast
qed

subsection \<open>A sweep whose rounded percentages all tie\<close>

lemma two_bars_tick_dca:
  "dca two_bars_tick 1 100 = Some (20000001 / 1000000100000)"
  by (simp add: dca_def dca_from.simps two_bars_tick_def candle_def)

lemma two_bars_tick_cell:
  assumes "5 \<le> i" and "i \<le> 100" and "50 \<le> j"
  shows "dcaWithLeverage two_bars_tick 1 100 1 (real i) (real j) True
     = Some (Inr \<lparr>wallet = (100 + real i / 100000) / 10000001, liquidationsCount = 0,
                    takeProfitsCount = 0, closedPositionsCount = 1\<rparr>)"
proof -
  let ?st = "\<lparr>wallet = 0, liquidationsCount = 0, takeProfitsCount = 0,
              closedPositionsCount = 0\<rparr>"
  let ?lp = "calculateLiquidationPrice (open' (two_bars_tick ! 0)) (real i) True"
  let ?pl = "calculateProfitLimit (open' (two_bars_tick ! 0)) (real j) (real i) True"
  have len: "length two_bars_tick = 2" by (simp add: two_bars_tick_def)
  have c0: "open' (two_bars_tick ! 0) = 10000000"
    by (simp add: two_bars_tick_def candle_def)
  have c1: "low (two_bars_tick ! Suc 0) = 10000000" "high (two_bars_tick ! Suc 0) = 10000001"
    "close (two_bars_tick ! Suc 0) = 10000001"
    by (simp_all add: two_bars_tick_def candle_def)
  from assms have ri: "0 < real i" "real i \<le> 100" and rj: "50 \<le> real j" by simp_all
  have lp: "?lp = 10000000 - 10000000 / real i"
    using ri by (simp add: c0 calculateLiquidationPrice_def Let_def)
  have pl: "?pl = 10000000 + 100000 * real j / real i"
    using ri by (simp add: c0 calculateProfitLimit_def)
  from ri have "0 < 10000000 / real i" by simp
  with lp have nl: "\<not> low (two_bars_tick ! Suc 0) \<le> ?lp" by (simp add: c1)
  have "real i < 100000 * real j" using ri rj by linarith
  with ri have "1 < 100000 * real j / real i" by (simp add: field_simps)
  with pl have np: "\<not> ?pl \<le> high (two_bars_tick ! Suc 0)" by (simp add: c1)
  have q: "\<forall>k. 0 + 1 \<le> k \<and> k \<le> 0 + 1 \<longrightarrow>
        \<not> (if True then low (two_bars_tick ! k) \<le> ?lp else ?lp \<le> high (two_bars_tick ! k))
      \<and> \<not> (if True then ?pl \<le> high (two_bars_tick ! k) else low (two_bars_tick ! k) \<le> ?pl)"
  proof (intro allI impI)
    fix k :: nat assume "0 + 1 \<le> k \<and> k \<le> 0 + 1"
    then have "k = 1" by arith
    with nl np show "\<not> (if True then low (two_bars_tick ! k) \<le> ?lp else ?lp \<le> high (two_bars_tick ! k))
      \<and> \<not> (if True then ?pl \<le> high (two_bars_tick ! k) else low (two_bars_tick ! k) \<le> ?pl)"
      by simp
  qed
  have e: "0 + 1 < length two_bars_tick" by (simp add: len)
  have i0: "0 < length two_bars_tick" by (simp add: len)
  have m: "monitor two_bars_tick ?lp ?pl True (0 + 1) (0 + 1) ?st = Inr (False, False, ?st)"
    by (rule monitor_expires[OF e q])
  have w: "calculateRemainingAmount
             (calculateProfitOrLoss
                (100 * real i / open' (two_bars_tick ! 0) * close (two_bars_tick ! Suc 0))
                (100 * real i / open' (two_bars_tick ! 0)) (open' (two_bars_tick ! 0)) True)
             100 / close (two_bars_tick ! Suc 0)
           = (100 + real i / 100000) / 10000001"
    by (simp add: c0 c1 calculateRemainingAmount_def calculateProfitOrLoss_def field_simps)
  have t: "trade two_bars_tick 100 1 (real i) (real j) True 0 ?st
     = Inr \<lparr>wallet = (100 + real i / 100000) / 10000001, liquidationsCount = 0,
            takeProfitsCount = 0, closedPositionsCount = 1\<rparr>"
    using trade_monitor_Inr[OF i0 m, of 100] e w by simp
  have s: "\<not> (0 + 1) + 1 < length two_bars_tick" by (simp add: len)
  have ee: "0 + 1 < length two_bars_tick" by (simp add: len)
  show ?thesis
    unfolding dcaWithLeverage_def
    by (simp only: from_step[OF ee t] from_stop[OF s])
qed

lemma toFixed_small:
  assumes "0 \<le> x" and "x * 10 ^ d < 1 / 2"
  shows "toFixed x d = 0"
proof -
  from assms have "\<lfloor>x * 10 ^ d + 1 / 2\<rfloor> = 0"
    by (intro floor_unique) simp_all
  with assms(1) show ?thesis by (simp add: toFixed_def)
qed

lemma toFixed_negative:
  assumes "x < 0" and "of_int n \<le> (- x) * 10 ^ d + 1 / 2" and "(- x) * 10 ^ d + 1 / 2 < of_int n + 1"
  shows "toFixed x d = - (of_int n / 10 ^ d)"
proof -
  from assms(2,3) have "\<lfloor>(- x) * 10 ^ d + 1 / 2\<rfloor> = n"
    by (intro floor_unique) simp_all
  with assms(1) show ?thesis by (simp add: toFixed_def)
qed

lemma two_bars_tick_difference:
  "diffenceInPercentage ((100 + real i / 100000) / 10000001) (20000001 / 1000000100000)
     = (100 * real i - 1000000100) / 20000001"
  by (simp add: diffenceInPercentage_def field_simps)

lemma two_bars_tick_row:
  assumes "5 \<le> i" and "i \<le> 100"
  shows "make_row (20000001 / 1000000100000) i j
           \<lparr>wallet = (100 + real i / 100000) / 10000001, liquidationsCount = 0,
            takeProfitsCount = 0, closedPositionsCount = 1\<rparr>
     = \<lparr>Leverage = i, Auto_take_profit = j, BTC_accumulated = 0,
        BTC_accumulated_vs_classic_DCA = - 50, Closed_positions = 1, Liquidations = 0,
        Take_profits = 0\<rparr>"
proof -
  from assms have ri: "5 \<le> real i" "real i \<le> 100" by simp_all
  have "toFixed ((100 + real i / 100000) / 10000001) 4 = 0"
    using ri by (intro toFixed_small) (simp_all add: field_simps)
  moreover have "toFixed ((100 * real i - 1000000100) / 20000001) 2 = - (of_int 5000 / 10 ^ 2)"
    using ri by (intro toFixed_negative) (simp_all add: field_simps)
  ultimately show ?thesis
    by (simp add: make_row_def two_bars_tick_difference)
qed

lemma two_bars_tick_sweep:
  "simulateEveryLeverages two_bars_tick (20000001 / 1000000100000) 1 100 1
     = Some (Inr (map (\<lambda>(i, j).
          \<lparr>Leverage = i, Auto_take_profit = j, BTC_accumulated = 0,
           BTC_accumulated_vs_classic_DCA = - 50, Closed_positions = 1, Liquidations = 0,
           Take_profits = 0\<rparr>) grid))"
proof -
  let ?B = "20000001 / 1000000100000 :: real"
  let ?res = "\<lambda>(i::nat) (j::nat). \<lparr>wallet = (100 + real i / 100000) / 10000001,
     liquidationsCount = 0, takeProfitsCount = 0, closedPositionsCount = 1\<rparr>"
  let ?row = "\<lambda>(i::nat, j::nat). \<lparr>Leverage = i, Auto_take_profit = j, BTC_accumulated = 0,
           BTC_accumulated_vs_classic_DCA = - 50, Closed_positions = 1, Liquidations = 0,
           Take_profits = 0\<rparr>"
  have "sweep two_bars_tick ?B 1 100 1 grid []
     = Some (Inr ([] @ map (\<lambda>(i, j). make_row ?B i j (?res i j)) grid))"
  proof (rule sweep_all)
    fix i j assume "(i, j) \<in> set grid"
    from grid_bounds[OF this] show
      "dcaWithLeverage two_bars_tick 1 100 1 (real i) (real j) True = Some (Inr (?res i j))"
      by (intro two_bars_tick_cell) simp_all
  qed
  moreover have "map (\<lambda>(i, j). make_row ?B i j (?res i j)) grid = map ?row grid"
  proof (rule map_cong[OF refl])
    fix c assume c: "c \<in> set grid"
    obtain i j where ij: "c = (i, j)" by (cases c)
    with c grid_bounds[of i j] have "5 \<le> i" "i \<le> 100" by simp_all
    from two_bars_tick_row[OF this] ij
    show "(case c of (i, j) \<Rightarrow> make_row ?B i j (?res i j)) = ?row c" by simp
  qed
  ultimately have s: "sweep two_bars_tick ?B 1 100 1 grid [] = Some (Inr (map ?row grid))"
    by simp
  have "sort_key (\<lambda>a. - BTC_accumulated_vs_classic_DCA a) (map ?row grid) = map ?row grid"
    by (rule sort_key_constant[where c = 50]) auto
  with s show ?thesis by (simp add: simulateEveryLeverages_def)
qed

lemma grid_positions: "grid ! 0 = (5, 50) \<and> grid ! 20 = (6, 50)"
proof -
  have a: "[5..<101] = 5 # 6 # [7..<101]" by (simp add: upt_conv_Cons)
  have b: "[1..<21] = 1 # [2..<21]" by (simp add: upt_conv_Cons)
  have l: "length (map (\<lambda>k. (5::nat, 50 * k)) [1..<21]) = 20" by simp
  have g: "grid = map (\<lambda>k. (5, 50 * k)) [1..<21]
             @ (map (\<lambda>k. (6, 50 * k)) [1..<21]
                @ concat (map (\<lambda>i. map (\<lambda>k. (i, 50 * k)) [1..<21]) [7..<101]))"
    unfolding grid_def by (simp only: a list.map concat.simps append_assoc)
  have "grid ! 0 = (5, 50)"
    by (simp only: g b list.map append_Cons nth_Cons_0) simp
  moreover have "grid ! 20 = (6, 50)"
    by (simp only: g nth_append_length[of "map (\<lambda>k. (5::nat, 50 * k)) [1..<21]", unfolded l])
       (simp only: b list.map append_Cons nth_Cons_0, simp)
  ultimately show ?thesis by simp
qed

theorem rows_sorted_by_rounded_difference_witness:
  "simulateEveryLeverages two_bars_tick (20000001 / 1000000100000) 1 100 1
     = Some (Inr (map (\<lambda>(i, j).
          \<lparr>Leverage = i, Auto_take_profit = j, BTC_accumulated = 0,
           BTC_accumulated_vs_classic_DCA = - 50, Closed_positions = 1, Liquidations = 0,
           Take_profits = 0\<rparr>) grid))
   \<and> sorted_wrt (\<lambda>a b. BTC_accumulated_vs_classic_DCA b \<le> BTC_accumulated_vs_classic_DCA a)
        (map (\<lambda>(i, j).
          \<lparr>Leverage = i, Auto_take_profit = j, BTC_accumulated = 0,
           BTC_accumulated_vs_classic_DCA = - 50, Closed_positions = 1, Liquidations = 0,
           Take_profits = 0\<rparr>) grid)
   \<and> mset (map (\<lambda>row. (Leverage row, Auto_take_profit row))
        (map (\<lambda>(i, j).
          \<lparr>Leverage = i, Auto_take_profit = j, BTC_accumulated = 0,
           BTC_accumulated_vs_classic_DCA = - 50, Closed_positions = 1, Liquidations = 0,
           Take_profits = 0\<rparr>) grid)) = mset grid
   \<and> diffenceInPercentage 1 1 = 0"
proof -
  have b: "(20000001 / 1000000100000 :: real) \<noteq> 0" by simp
  have c: "\<forall>c \<in> set two_bars_tick. open' c \<noteq> 0 \<and> close c \<noteq> 0"
    by (simp add: two_bars_tick_def candle_def)
  have "(1::real) \<noteq> 0" by simp
  with rows_sorted_by_rounded_difference[OF two_bars_tick_sweep b c, of 1] two_bars_tick_sweep
  show ?thesis by blast
qed

theorem rows_not_sorted_by_exact_difference:
  "dca two_bars_tick 1 100 = Some (20000001 / 1000000100000)
   \<and> simulateEveryLeverages two_bars_tick (20000001 / 1000000100000) 1 100 1
       = Some (Inr (map (\<lambda>(i, j).
          \<lparr>Leverage = i, Auto_take_profit = j, BTC_accumulated = 0,
           BTC_accumulated_vs_classic_DCA = - 50, Closed_positions = 1, Liquidations = 0,
           Take_profits = 0\<rparr>) grid))
   \<and> grid ! 0 = (5, 50) \<and> grid ! 20 = (6, 50)
   \<and> dcaWithLeverage two_bars_tick 1 100 1 5 50 True
       = Some (Inr \<lparr>wallet = 2000001 / 200000020000, liquidationsCount = 0,
                      takeProfitsCount = 0, closedPositionsCount = 1\<rparr>)
   \<and> dcaWithLeverage two_bars_tick 1 100 1 6 50 True
       = Some (Inr \<lparr>wallet = 5000003 / 500000050000, liquidationsCount = 0,
                      takeProfitsCount = 0, closedPositionsCount = 1\<rparr>)
   \<and> diffenceInPercentage (2000001 / 200000020000) (20000001 / 1000000100000)
       < diffenceInPercentage (5000003 / 500000050000) (20000001 / 1000000100000)"
proof -
  have "dcaWithLeverage two_bars_tick 1 100 1 5 50 True
       = Some (Inr \<lparr>wallet = 2000001 / 200000020000, liquidationsCount = 0,
                      takeProfitsCount = 0, closedPositionsCount = 1\<rparr>)"
    using two_bars_tick_cell[of 5 50] by simp
  moreover have "dcaWithLeverage two_bars_tick 1 100 1 6 50 True
       = Some (Inr \<lparr>wallet = 5000003 / 500000050000, liquidationsCount = 0,
                      takeProfitsCount = 0, closedPositionsCount = 1\<rparr>)"
    using two_bars_tick_cell[of 6 50] by simp
  moreover have "diffenceInPercentage (2000001 / 200000020000) (20000001 / 1000000100000)
       < diffenceInPercentage (5000003 / 500000050000) (20000001 / 1000000100000)"
    by (simp add: diffenceInPercentage_def)
  ultimately show ?thesis
    using two_bars_tick_dca two_bars_tick_sweep grid_positions by blast
qed

end
